theory Spec2Isabelle
  imports Main "HOL-Library.Sublist"
begin

section \<open>Python strings\<close>

text \<open>
  Paths and file contents are modelled by the bytes of their UTF-8 encoding
  (\<^typ>\<open>string\<close>): every path separator is ASCII, and an ASCII byte never occurs inside a
  multi-byte UTF-8 sequence, so prefix tests on the bytes agree with the tests on the
  code points.

  The task text is lower-cased, and \<open>str.lower()\<close> works on code points, so a task text is
  the list of its code points. The literals of the source are ASCII; \<open>str\<close> gives the
  code points of one.
\<close>

type_synonym py_str = "int list"

definition str :: "string \<Rightarrow> py_str" where
  "str s = map of_char s"

text \<open>
  \<open>str.lower()\<close> replaces every code point of the text in turn. A code point of ASCII is
  replaced by itself, or by its small letter when it is one of \<open>A\<close> to \<open>Z\<close>. What
  replaces a code point beyond ASCII is written in the tables of the Unicode database
  that Python carries, which are not part of the repository: it is one code point or
  several (U+0130 becomes \<open>i\<close> and U+0307, the Kelvin sign U+212A becomes \<open>k\<close>), and for
  the capital sigma it depends on the neighbours. The model takes it as the parameter
  \<open>low\<close>, from the text and the index to the replacement.
\<close>

definition ascii_lower :: "int \<Rightarrow> int" where
  "ascii_lower c = (if 65 \<le> c \<and> c \<le> 90 then c + 32 else c)"

definition lower :: "(py_str \<Rightarrow> nat \<Rightarrow> py_str) \<Rightarrow> py_str \<Rightarrow> py_str" where
  "lower low s =
     concat (map (\<lambda>i. if s ! i < 128 then [ascii_lower (s ! i)] else low s i)
                 [0..<length s])"

text \<open>\<open>s.startswith(p)\<close>\<close>

fun startswith :: "'a list \<Rightarrow> 'a list \<Rightarrow> bool" where
  "startswith s [] = True"
| "startswith [] (p # ps) = False"
| "startswith (c # cs) (p # ps) = (c = p \<and> startswith cs ps)"

text \<open>\<open>x in s\<close> for two strings: \<open>x\<close> occurs in \<open>s\<close> as a contiguous block.\<close>

fun contains :: "'a list \<Rightarrow> 'a list \<Rightarrow> bool" where
  "contains [] x = (x = [])"
| "contains (c # cs) x = (startswith (c # cs) x \<or> contains cs x)"

section \<open>Exceptions\<close>

text \<open>
  The exceptions that reach the endpoints. \<open>HTTPException\<close> is FastAPI's exception with
  its \<open>status_code\<close> and \<open>detail\<close>; \<open>Exception m\<close> is any other instance of Python's
  \<open>Exception\<close>, with \<open>str(e) = m\<close>; \<open>BaseException m\<close> is an exception outside the
  \<open>Exception\<close> hierarchy (\<open>SystemExit\<close>, \<open>KeyboardInterrupt\<close>), which \<open>except Exception\<close>
  does not catch.
\<close>

datatype py_exception =
    HTTPException (status_code: int) (detail: string)
  | Exception string
  | BaseException string

section \<open>The classifier\<close>

text \<open>
  \<open>classify_task\<close> of \<open>main.py\<close>: the \<open>if\<close>/\<open>elif\<close> chain over the lower-cased text, in
  the order of the source. In Python \<open>and\<close> binds tighter than \<open>or\<close>, so the third test
  reads \<open>wednesday or (count and dates.txt)\<close>. The function returns the key as a string
  or raises \<open>HTTPException(400, "Task not recognized")\<close>.
\<close>

definition classify_task ::
    "(py_str \<Rightarrow> nat \<Rightarrow> py_str) \<Rightarrow> py_str \<Rightarrow> py_exception + string" where
  "classify_task low task =
    (let task_lower = lower low task in
     if contains task_lower (str ''datagen.py'') \<or> contains task_lower (str ''install uv'')
       then Inr ''A1''
     else if contains task_lower (str ''format'') \<and> contains task_lower (str ''prettier'')
       then Inr ''A2''
     else if contains task_lower (str ''wednesday'')
             \<or> (contains task_lower (str ''count'') \<and> contains task_lower (str ''dates.txt''))
       then Inr ''A3''
     else if contains task_lower (str ''sort contacts'') then Inr ''A4''
     else if contains task_lower (str ''recent'') \<and> contains task_lower (str ''.log'')
       then Inr ''A5''
     else if contains task_lower (str ''markdown'') \<and> contains task_lower (str ''index'')
       then Inr ''A6''
     else if contains task_lower (str ''email.txt'') \<and> contains task_lower (str ''sender'')
       then Inr ''A7''
     else if contains task_lower (str ''credit card'') then Inr ''A8''
     else if contains task_lower (str ''comments'') \<and> contains task_lower (str ''similar'')
       then Inr ''A9''
     else if contains task_lower (str ''ticket-sales.db'') \<or> contains task_lower (str ''gold'')
       then Inr ''A10''
     else if contains task_lower (str ''fetch data'') \<or> contains task_lower (str ''api'')
       then Inr ''B3''
     else if contains task_lower (str ''clone'') \<and> contains task_lower (str ''git'')
       then Inr ''B4''
     else if contains task_lower (str ''sql query'') then Inr ''B5''
     else if contains task_lower (str ''scrape'') \<or> contains task_lower (str ''website'')
       then Inr ''B6''
     else if contains task_lower (str ''resize image'') \<or> contains task_lower (str ''compress image'')
       then Inr ''B7''
     else if contains task_lower (str ''transcribe'') \<and> contains task_lower (str ''mp3'')
       then Inr ''B8''
     else if contains task_lower (str ''convert markdown'') \<and> contains task_lower (str ''html'')
       then Inr ''B9''
     else if contains task_lower (str ''filter csv'') then Inr ''B10''
     else Inl (HTTPException 400 ''Task not recognized''))"

text \<open>
  The rule list of the specification (section 4.1), written from its words: eighteen
  pairs of a predicate on the lower-cased text and a category, and the function that
  returns the category of the first pair whose predicate holds. It is compared with
  \<open>classify_task\<close> below.
\<close>

definition spec_rules :: "((py_str \<Rightarrow> bool) \<times> string) list" where
  "spec_rules =
    [(\<lambda>s. contains s (str ''datagen.py'') \<or> contains s (str ''install uv''), ''A1''),
     (\<lambda>s. contains s (str ''format'') \<and> contains s (str ''prettier''), ''A2''),
     (\<lambda>s. contains s (str ''wednesday'')
            \<or> (contains s (str ''count'') \<and> contains s (str ''dates.txt'')), ''A3''),
     (\<lambda>s. contains s (str ''sort contacts''), ''A4''),
     (\<lambda>s. contains s (str ''recent'') \<and> contains s (str ''.log''), ''A5''),
     (\<lambda>s. contains s (str ''markdown'') \<and> contains s (str ''index''), ''A6''),
     (\<lambda>s. contains s (str ''email.txt'') \<and> contains s (str ''sender''), ''A7''),
     (\<lambda>s. contains s (str ''credit card''), ''A8''),
     (\<lambda>s. contains s (str ''comments'') \<and> contains s (str ''similar''), ''A9''),
     (\<lambda>s. contains s (str ''ticket-sales.db'') \<or> contains s (str ''gold''), ''A10''),
     (\<lambda>s. contains s (str ''fetch data'') \<or> contains s (str ''api''), ''B3''),
     (\<lambda>s. contains s (str ''clone'') \<and> contains s (str ''git''), ''B4''),
     (\<lambda>s. contains s (str ''sql query''), ''B5''),
     (\<lambda>s. contains s (str ''scrape'') \<or> contains s (str ''website''), ''B6''),
     (\<lambda>s. contains s (str ''resize image'') \<or> contains s (str ''compress image''), ''B7''),
     (\<lambda>s. contains s (str ''transcribe'') \<and> contains s (str ''mp3''), ''B8''),
     (\<lambda>s. contains s (str ''convert markdown'') \<and> contains s (str ''html''), ''B9''),
     (\<lambda>s. contains s (str ''filter csv''), ''B10'')]"

fun first_match :: "((py_str \<Rightarrow> bool) \<times> string) list \<Rightarrow> py_str \<Rightarrow> string option" where
  "first_match [] s = None"
| "first_match ((p, c) # rs) s = (if p s then Some c else first_match rs s)"

definition spec_classify :: "(py_str \<Rightarrow> nat \<Rightarrow> py_str) \<Rightarrow> py_str \<Rightarrow> string option" where
  "spec_classify low text = first_match spec_rules (lower low text)"

section \<open>The dispatch table and the \<open>/run\<close> endpoint\<close>

text \<open>
  The eighteen task functions are imported from \<open>tasksA\<close> and \<open>tasksB\<close>; the endpoint
  only calls them, with no argument. They are named by a datatype, and what a call does
  is given by a parameter of \<open>run_task\<close>: it returns a payload or raises.
\<close>

datatype handler =
    task_A1_install_and_run_datagen
  | task_A2_format_markdown
  | task_A3_count_weekdays
  | task_A4_sort_contacts
  | task_A5_recent_log_lines
  | task_A6_extract_markdown_titles
  | task_A7_extract_email_sender
  | task_A8_extract_credit_card
  | task_A9_find_similar_comments
  | task_A10_compute_gold_ticket_sales
  | task_B3_fetch_api_data
  | task_B4_clone_and_commit
  | task_B5_run_sql_query
  | task_B6_scrape_website
  | task_B7_process_image
  | task_B8_transcribe_audio
  | task_B9_convert_markdown_to_html
  | task_B10_filter_csv

datatype 'r outcome = Returns 'r | Raises py_exception

definition task_mapping :: "string \<rightharpoonup> handler" where
  "task_mapping = map_of
    [(''A1'', task_A1_install_and_run_datagen),
     (''A2'', task_A2_format_markdown),
     (''A3'', task_A3_count_weekdays),
     (''A4'', task_A4_sort_contacts),
     (''A5'', task_A5_recent_log_lines),
     (''A6'', task_A6_extract_markdown_titles),
     (''A7'', task_A7_extract_email_sender),
     (''A8'', task_A8_extract_credit_card),
     (''A9'', task_A9_find_similar_comments),
     (''A10'', task_A10_compute_gold_ticket_sales),
     (''B3'', task_B3_fetch_api_data),
     (''B4'', task_B4_clone_and_commit),
     (''B5'', task_B5_run_sql_query),
     (''B6'', task_B6_scrape_website),
     (''B7'', task_B7_process_image),
     (''B8'', task_B8_transcribe_audio),
     (''B9'', task_B9_convert_markdown_to_html),
     (''B10'', task_B10_filter_csv)]"

text \<open>
  \<open>str(KeyError(k))\<close> is \<open>repr(k)\<close>: for a key of letters and digits, the key between two
  single quotes.
\<close>

definition str_KeyError :: "string \<Rightarrow> string" where
  "str_KeyError k = CHR 0x27 # k @ [CHR 0x27]"

text \<open>The values of the dictionary that \<open>run_task\<close> returns, in the order it writes them.\<close>

datatype 'r py_value = Str string | Payload 'r

text \<open>
  The body of the \<open>try\<close> statement of \<open>run_task\<close>: classify, look the key up (a missing
  key raises \<open>KeyError\<close>), call the function, build the dictionary.
\<close>

definition run_task_try ::
    "(py_str \<Rightarrow> nat \<Rightarrow> py_str) \<Rightarrow> (handler \<Rightarrow> 'r outcome) \<Rightarrow> py_str
       \<Rightarrow> py_exception + (string \<times> 'r py_value) list" where
  "run_task_try low call task =
    (case classify_task low task of
       Inl he \<Rightarrow> Inl he
     | Inr classification \<Rightarrow>
        (case task_mapping classification of
           None \<Rightarrow> Inl (Exception (str_KeyError classification))
         | Some f \<Rightarrow>
            (case call f of
               Raises e \<Rightarrow> Inl e
             | Returns result \<Rightarrow>
                 Inr [(''status'', Str ''success''),
                      (''task'', Str classification),
                      (''result'', Payload result)])))"

text \<open>
  The two \<open>except\<close> clauses, in order: an \<open>HTTPException\<close> is raised again as it is; any
  other \<open>Exception\<close> becomes \<open>HTTPException(500, str(e))\<close>; an exception outside
  \<open>Exception\<close> is caught by neither clause.
\<close>

fun run_task_except :: "py_exception \<Rightarrow> py_exception" where
  "run_task_except (HTTPException s d) = HTTPException s d"
| "run_task_except (Exception m) = HTTPException 500 m"
| "run_task_except (BaseException m) = BaseException m"

definition run_task ::
    "(py_str \<Rightarrow> nat \<Rightarrow> py_str) \<Rightarrow> (handler \<Rightarrow> 'r outcome) \<Rightarrow> py_str
       \<Rightarrow> py_exception + (string \<times> 'r py_value) list" where
  "run_task low call task =
    (case run_task_try low call task of
       Inl e \<Rightarrow> Inl (run_task_except e)
     | Inr envelope \<Rightarrow> Inr envelope)"

text \<open>
  What FastAPI sends for an endpoint: a returned value is the body of a 200 response, a
  raised \<open>HTTPException\<close> is a response with its status code and its detail. For any other
  exception the endpoint's code determines no response.
\<close>

datatype 'a http_body = Content 'a | Detail string

fun http_response :: "py_exception + 'a \<Rightarrow> (int \<times> 'a http_body) option" where
  "http_response (Inr v) = Some (200, Content v)"
| "http_response (Inl (HTTPException s d)) = Some (s, Detail d)"
| "http_response (Inl (Exception m)) = None"
| "http_response (Inl (BaseException m)) = None"

section \<open>POSIX paths\<close>

text \<open>
  \<open>os.path.abspath\<close> of Python's \<open>posixpath\<close>: a relative path is joined to the
  working directory, then \<open>normpath\<close> drops empty and \<open>.\<close> components and resolves
  \<open>..\<close> textually, without looking at the file system.
\<close>

text \<open>\<open>s.split(sep)\<close> for a separator of one character.\<close>

fun str_split :: "char \<Rightarrow> string \<Rightarrow> string list" where
  "str_split sep [] = [[]]"
| "str_split sep (c # cs) =
     (if c = sep then [] # str_split sep cs
      else (case str_split sep cs of
              [] \<Rightarrow> [[c]]
            | w # ws \<Rightarrow> (c # w) # ws))"

text \<open>\<open>sep.join(comps)\<close>\<close>

fun str_join :: "string \<Rightarrow> string list \<Rightarrow> string" where
  "str_join sep [] = []"
| "str_join sep [x] = x"
| "str_join sep (x # y # ys) = x @ sep @ str_join sep (y # ys)"

text \<open>
  The loop of \<open>normpath\<close> over the components; \<open>new_comps\<close> grows and shrinks at its
  end (\<open>append\<close>, \<open>pop\<close>).
\<close>

fun normpath_loop :: "nat \<Rightarrow> string list \<Rightarrow> string list \<Rightarrow> string list" where
  "normpath_loop initial_slashes new_comps [] = new_comps"
| "normpath_loop initial_slashes new_comps (component # comps) =
     (if component = [] \<or> component = ''.'' then normpath_loop initial_slashes new_comps comps
      else if component \<noteq> ''..'' \<or> (initial_slashes = 0 \<and> new_comps = [])
               \<or> (new_comps \<noteq> [] \<and> last new_comps = ''..'')
        then normpath_loop initial_slashes (new_comps @ [component]) comps
      else if new_comps \<noteq> [] then normpath_loop initial_slashes (butlast new_comps) comps
      else normpath_loop initial_slashes new_comps comps)"

definition normpath :: "string \<Rightarrow> string" where
  "normpath path =
    (if path = [] then ''.''
     else
       let initial_slashes =
             (if startswith path ''/''
              then (if startswith path ''//'' \<and> \<not> startswith path ''///'' then 2 else 1)
              else (0::nat));
           comps = normpath_loop initial_slashes [] (str_split CHR ''/'' path);
           joined = str_join ''/'' comps;
           result = (if initial_slashes \<noteq> 0
                     then replicate initial_slashes CHR ''/'' @ joined else joined)
       in if result = [] then ''.'' else result)"

text \<open>\<open>os.path.join(a, b)\<close> with one second argument.\<close>

definition path_join :: "string \<Rightarrow> string \<Rightarrow> string" where
  "path_join a b =
    (if startswith b ''/'' then b
     else if a = [] \<or> last a = CHR ''/'' then a @ b
     else a @ ''/'' @ b)"

definition abspath :: "string \<Rightarrow> string \<Rightarrow> string" where
  "abspath cwd path =
    normpath (if \<not> startswith path ''/'' then path_join cwd path else path)"

section \<open>Reading a file as text\<close>

text \<open>
  \<open>open(path, "r", encoding="utf-8")\<close> followed by \<open>f.read()\<close>: the bytes of the file
  are decoded as UTF-8 (a byte sequence that is not UTF-8 raises \<open>UnicodeDecodeError\<close>)
  and, the \<open>newline\<close> argument being absent, every \<open>\r\n\<close> and every remaining \<open>\r\<close>
  becomes \<open>\n\<close>.
\<close>

definition in_range :: "char \<Rightarrow> nat \<Rightarrow> nat \<Rightarrow> bool" where
  "in_range c lo hi = (lo \<le> of_char c \<and> of_char c \<le> hi)"

text \<open>
  The length of the well-formed UTF-8 sequence at the head of the bytes (the table of
  the Unicode standard: no overlong form, no surrogate, nothing above U+10FFFF), or 0.
\<close>

fun utf8_head :: "string \<Rightarrow> nat" where
  "utf8_head [] = 0"
| "utf8_head [a] = (if in_range a 0 127 then 1 else 0)"
| "utf8_head [a, b] =
     (if in_range a 0 127 then 1
      else if in_range a 194 223 \<and> in_range b 128 191 then 2 else 0)"
| "utf8_head [a, b, c] =
     (if in_range a 0 127 then 1
      else if in_range a 194 223 \<and> in_range b 128 191 then 2
      else if in_range a 224 224 \<and> in_range b 160 191 \<and> in_range c 128 191 then 3
      else if in_range a 225 236 \<and> in_range b 128 191 \<and> in_range c 128 191 then 3
      else if in_range a 237 237 \<and> in_range b 128 159 \<and> in_range c 128 191 then 3
      else if in_range a 238 239 \<and> in_range b 128 191 \<and> in_range c 128 191 then 3
      else 0)"
| "utf8_head (a # b # c # d # rest) =
     (if in_range a 0 127 then 1
      else if in_range a 194 223 \<and> in_range b 128 191 then 2
      else if in_range a 224 224 \<and> in_range b 160 191 \<and> in_range c 128 191 then 3
      else if in_range a 225 236 \<and> in_range b 128 191 \<and> in_range c 128 191 then 3
      else if in_range a 237 237 \<and> in_range b 128 159 \<and> in_range c 128 191 then 3
      else if in_range a 238 239 \<and> in_range b 128 191 \<and> in_range c 128 191 then 3
      else if in_range a 240 240 \<and> in_range b 144 191 \<and> in_range c 128 191
              \<and> in_range d 128 191 then 4
      else if in_range a 241 243 \<and> in_range b 128 191 \<and> in_range c 128 191
              \<and> in_range d 128 191 then 4
      else if in_range a 244 244 \<and> in_range b 128 143 \<and> in_range c 128 191
              \<and> in_range d 128 191 then 4
      else 0)"

function utf8_valid :: "string \<Rightarrow> bool" where
  "utf8_valid s =
     (if s = [] then True
      else if utf8_head s = 0 then False
      else utf8_valid (drop (utf8_head s) s))"
  by pat_completeness auto
termination
  by (relation "measure length") auto

text \<open>The equation of \<open>utf8_valid\<close> mentions itself: it is unfolded by hand only.\<close>

declare utf8_valid.simps [simp del]

fun universal_newlines :: "string \<Rightarrow> string" where
  "universal_newlines [] = []"
| "universal_newlines [c] = (if c = CHR 0x0D then [CHR 0x0A] else [c])"
| "universal_newlines (c # d # ds) =
     (if c = CHR 0x0D \<and> d = CHR 0x0A then CHR 0x0A # universal_newlines ds
      else if c = CHR 0x0D then CHR 0x0A # universal_newlines (d # ds)
      else c # universal_newlines (d # ds))"

section \<open>The \<open>/read\<close> endpoint\<close>

text \<open>
  What the endpoint sees of the operating system: the working directory
  (\<open>os.getcwd()\<close>, an absolute path), \<open>os.path.exists\<close>, the bytes that opening and
  reading a path gives, or the message of the \<open>OSError\<close> it raises, and the message of
  the \<open>UnicodeDecodeError\<close> for bytes that are not UTF-8. The two file system functions
  are independent: nothing says that a path that exists can be opened.
\<close>

record os_env =
  os_getcwd :: string
  os_path_exists :: "string \<Rightarrow> bool"
  open_bytes :: "string \<Rightarrow> string + string"
  str_UnicodeDecodeError :: "string \<Rightarrow> string"

text \<open>The calls on the file system that the endpoint makes, in the order it makes them.\<close>

datatype fs_call = Exists string | Open string

text \<open>The \<open>with open ... f.read()\<close> block: the text, or \<open>str(e)\<close> of the exception.\<close>

definition read_text :: "os_env \<Rightarrow> string \<Rightarrow> string + string" where
  "read_text env path =
    (case open_bytes env path of
       Inl msg \<Rightarrow> Inl msg
     | Inr bytes \<Rightarrow>
         if utf8_valid bytes then Inr (universal_newlines bytes)
         else Inl (str_UnicodeDecodeError env bytes))"

text \<open>The sandbox test of \<open>read_file\<close>: two string-prefix tests on the absolute path.\<close>

definition path_is_safe :: "os_env \<Rightarrow> string \<Rightarrow> bool" where
  "path_is_safe env path =
    (startswith (abspath (os_getcwd env) path) (abspath (os_getcwd env) ''/data'')
     \<or> startswith (abspath (os_getcwd env) path) (abspath (os_getcwd env) ''./data''))"

definition read_file :: "os_env \<Rightarrow> string \<Rightarrow> (py_exception + string) \<times> fs_call list" where
  "read_file env path =
    (if \<not> path_is_safe env path
     then (Inl (HTTPException 400 ''Access to files outside /data is forbidden''), [])
     else if \<not> os_path_exists env path
     then (Inl (HTTPException 404 ''File not found''), [Exists path])
     else (case read_text env path of
             Inr content \<Rightarrow> (Inr content, [Exists path, Open path])
           | Inl msg \<Rightarrow> (Inl (HTTPException 500 msg), [Exists path, Open path])))"

text \<open>
  A normalized path lies underneath a directory when it is the directory or continues
  it after a separator.
\<close>

definition underneath :: "string \<Rightarrow> string \<Rightarrow> bool" where
  "underneath root p = (p = root \<or> startswith p (root @ ''/''))"

text \<open>Fixed inputs for the examples below.\<close>

text \<open>
  Two lines of Python's lower-casing table: U+0130 becomes \<open>i\<close> and U+0307, the Kelvin
  sign U+212A becomes \<open>k\<close>. The examples use no other code point beyond ASCII.
\<close>

definition sample_low :: "py_str \<Rightarrow> nat \<Rightarrow> py_str" where
  "sample_low s i =
     (if s ! i = 0x130 then [0x69, 0x307]
      else if s ! i = 0x212A then [0x6B]
      else [s ! i])"

definition handlers_ok :: "handler \<Rightarrow> string outcome" where
  "handlers_ok f = Returns ''done''"

definition handlers_boom :: "handler \<Rightarrow> string outcome" where
  "handlers_boom f = Raises (Exception ''boom'')"

definition handlers_404 :: "handler \<Rightarrow> string outcome" where
  "handlers_404 f = Raises (HTTPException 404 ''no such record'')"

text \<open>
  A machine whose working directory is \<open>/app\<close> and that holds three files under
  \<open>/data\<close>: one with a Windows line end, one of plain ASCII, one that is not UTF-8.
\<close>

definition demo_env :: os_env where
  "demo_env =
    \<lparr>os_getcwd = ''/app'',
     os_path_exists =
       (\<lambda>p. p = ''/data/crlf.txt'' \<or> p = ''/data/plain.txt'' \<or> p = ''/data/bad.bin''),
     open_bytes =
       (\<lambda>p. if p = ''/data/crlf.txt'' then Inr [CHR ''a'', CHR 0x0D, CHR 0x0A, CHR ''b'']
            else if p = ''/data/plain.txt'' then Inr ''hello''
            else if p = ''/data/bad.bin'' then Inr [CHR 0xFF]
            else Inl ''No such file or directory''),
     str_UnicodeDecodeError = (\<lambda>b. ''invalid start byte'')\<rparr>"

text \<open>
  A machine whose working directory is \<open>/app\<close> and that has a directory \<open>/database\<close>
  beside \<open>/data\<close>, with a file in it.
\<close>

definition sibling_env :: os_env where
  "sibling_env =
    \<lparr>os_getcwd = ''/app'',
     os_path_exists = (\<lambda>p. p = ''/database/x'' \<or> p = ''/data/../database/x''),
     open_bytes =
       (\<lambda>p. if p = ''/database/x'' \<or> p = ''/data/../database/x'' then Inr ''secret''
            else Inl ''No such file or directory''),
     str_UnicodeDecodeError = (\<lambda>b. ''invalid start byte'')\<rparr>"

section \<open>Strings and the rule list: basic facts\<close>

lemma startswith_prefix: "startswith s p = prefix p s"
  by (induction s p rule: startswith.induct) auto

lemma contains_sublist: "contains s x = sublist x s"
  by (induction s) (auto simp: startswith_prefix sublist_Cons_right)

text \<open>On a text of ASCII the table of the code points beyond ASCII is never consulted.\<close>

lemma lower_ascii:
  assumes "\<forall>c \<in> set s. c < 128"
  shows "lower low s = map ascii_lower s"
proof -
  have eq: "map (\<lambda>i. if s ! i < 128 then [ascii_lower (s ! i)] else low s i) [0..<length s]
        = map (\<lambda>i. [ascii_lower (s ! i)]) [0..<length s]"
    using assms by (intro map_cong) auto
  have "lower low s = concat (map (\<lambda>i. [ascii_lower (s ! i)]) [0..<length s])"
    unfolding lower_def eq by (rule refl)
  also have "\<dots> = map (\<lambda>i. ascii_lower (s ! i)) [0..<length s]"
    by (rule concat_map_singleton)
  also have "\<dots> = map ascii_lower (map ((!) s) [0..<length s])"
    by simp
  also have "\<dots> = map ascii_lower s"
    by (simp only: map_nth)
  finally show ?thesis .
qed

lemma classify_task_ascii:
  assumes "\<forall>c \<in> set task. c < 128"
  shows "classify_task low task = classify_task low' task"
  by (simp add: classify_task_def lower_ascii [OF assms])

lemma classify_task_spec:
  "classify_task low task =
     (case spec_classify low task of
        Some c \<Rightarrow> Inr c
      | None \<Rightarrow> Inl (HTTPException 400 ''Task not recognized''))"
  unfolding classify_task_def spec_classify_def spec_rules_def Let_def first_match.simps
  by (simp only: if_distrib [of "case_option _ _"] option.case if_cancel split: if_split)

lemma first_match_None: "first_match rs s = None \<longleftrightarrow> \<not> (\<exists>r \<in> set rs. fst r s)"
  by (induction rs s rule: first_match.induct) auto

lemma first_match_nth:
  "i < length rs \<Longrightarrow> fst (rs ! i) s \<Longrightarrow> \<forall>j<i. \<not> fst (rs ! j) s
     \<Longrightarrow> first_match rs s = Some (snd (rs ! i))"
proof (induction rs s arbitrary: i rule: first_match.induct)
  case (1 s)
  then show ?case by simp
next
  case (2 p c rs s)
  show ?case
  proof (cases i)
    case 0
    with "2.prems" show ?thesis by simp
  next
    case (Suc k)
    from "2.prems"(3) Suc have "\<not> p s" by fastforce
    moreover have "first_match rs s = Some (snd (rs ! k))"
    proof (rule "2.IH")
      show "\<not> p s" by fact
      show "k < length rs" using "2.prems"(1) Suc by simp
      show "fst (rs ! k) s" using "2.prems"(2) Suc by simp
      show "\<forall>j<k. \<not> fst (rs ! j) s"
      proof (intro allI impI)
        fix j assume "j < k"
        then have "Suc j < i" using Suc by simp
        with "2.prems"(3) have "\<not> fst (((p, c) # rs) ! Suc j) s" by blast
        then show "\<not> fst (rs ! j) s" by simp
      qed
    qed
    ultimately show ?thesis using Suc by simp
  qed
qed

lemma first_match_Some: "first_match rs s = Some c \<Longrightarrow> c \<in> snd ` set rs"
  by (induction rs s rule: first_match.induct) (auto split: if_splits)

lemma first_match_drop:
  "\<not> (\<exists>r \<in> set (take n rs). fst r s) \<Longrightarrow> first_match rs s = first_match (drop n rs) s"
proof (induction rs s arbitrary: n rule: first_match.induct)
  case (1 s)
  then show ?case by simp
next
  case (2 p c rs s)
  then show ?case by (cases n) auto
qed

lemma classify_task_nth:
  assumes "i < length spec_rules" and "fst (spec_rules ! i) (lower low task)"
    and "\<forall>j<i. \<not> fst (spec_rules ! j) (lower low task)"
  shows "classify_task low task = Inr (snd (spec_rules ! i))"
proof -
  from assms have "spec_classify low task = Some (snd (spec_rules ! i))"
    unfolding spec_classify_def by (rule first_match_nth)
  then show ?thesis by (simp add: classify_task_spec)
qed

lemma keys_spec_rules:
  "map snd spec_rules =
     [''A1'', ''A2'', ''A3'', ''A4'', ''A5'', ''A6'', ''A7'', ''A8'', ''A9'', ''A10'',
      ''B3'', ''B4'', ''B5'', ''B6'', ''B7'', ''B8'', ''B9'', ''B10'']"
  by (simp add: spec_rules_def)

lemma keys_in_task_mapping: "\<forall>c \<in> set (map snd spec_rules). task_mapping c \<noteq> None"
  unfolding keys_spec_rules by (simp add: task_mapping_def)

lemma classify_task_key: "classify_task low task = Inr c \<Longrightarrow> \<exists>f. task_mapping c = Some f"
proof -
  assume "classify_task low task = Inr c"
  then have "spec_classify low task = Some c"
    by (simp add: classify_task_spec split: option.splits)
  then have "c \<in> snd ` set spec_rules"
    unfolding spec_classify_def by (rule first_match_Some)
  then have "c \<in> set (map snd spec_rules)" by simp
  with keys_in_task_mapping show ?thesis by blast
qed

section \<open>The classifier and the dispatch table\<close>

text \<open>
  Claim C5. A task text whose lower-cased form satisfies none of the eighteen rule
  predicates makes \<open>classify_task\<close> raise \<open>HTTPException(400, "Task not recognized")\<close>;
  \<open>run_task\<close> raises it again unchanged, whatever the handlers do, and the response of
  \<open>/run\<close> is a 400 whose detail is exactly \<open>Task not recognized\<close>. The lower-cased form
  is that of \<open>str.lower()\<close>, whatever its table for the code points beyond ASCII is.
\<close>

theorem unrecognized_task_400:
  assumes "\<not> (\<exists>r \<in> set spec_rules. fst r (lower low task))"
  shows "classify_task low task = Inl (HTTPException 400 ''Task not recognized'')
       \<and> run_task low call task = Inl (HTTPException 400 ''Task not recognized'')
       \<and> http_response (run_task low call task) = Some (400, Detail ''Task not recognized'')"
proof -
  from assms have "spec_classify low task = None"
    by (simp add: spec_classify_def first_match_None)
  then have c: "classify_task low task = Inl (HTTPException 400 ''Task not recognized'')"
    by (simp add: classify_task_spec)
  then have r: "run_task low call task = Inl (HTTPException 400 ''Task not recognized'')"
    by (simp add: run_task_def run_task_try_def)
  from c r show ?thesis by simp
qed

theorem unrecognized_task_400_witness:
  "\<not> (\<exists>r \<in> set spec_rules. fst r (lower sample_low (str ''Hello, World'')))
   \<and> classify_task sample_low (str ''Hello, World'')
        = Inl (HTTPException 400 ''Task not recognized'')
   \<and> http_response (run_task sample_low handlers_ok (str ''Hello, World''))
       = Some (400, Detail ''Task not recognized'')"
proof -
  have h: "\<not> (\<exists>r \<in> set spec_rules. fst r (lower sample_low (str ''Hello, World'')))"
    by code_simp
  from unrecognized_task_400 [OF h, of handlers_ok] h show ?thesis by simp
qed

text \<open>
  Claim C6. Whenever \<open>classify_task\<close> returns a key, the key is in the dispatch table
  \<open>task_mapping\<close>: the lookup in \<open>run_task\<close> finds a handler, so the \<open>KeyError\<close> branch
  is never taken and the body of the \<open>try\<close> goes on to call that handler.
\<close>

theorem dispatch_lookup_succeeds:
  assumes "classify_task low task = Inr c"
  shows "c \<in> dom task_mapping
       \<and> (\<exists>f. task_mapping c = Some f
              \<and> run_task_try low call task =
                  (case call f of
                     Raises e \<Rightarrow> Inl e
                   | Returns result \<Rightarrow>
                       Inr [(''status'', Str ''success''), (''task'', Str c),
                            (''result'', Payload result)]))"
proof -
  from assms obtain f where f: "task_mapping c = Some f"
    using classify_task_key by blast
  with assms show ?thesis
    by (auto simp: run_task_try_def)
qed

theorem dispatch_lookup_succeeds_witness:
  "classify_task sample_low (str ''Please SORT CONTACTS by name'') = Inr ''A4''
   \<and> ''A4'' \<in> dom task_mapping
   \<and> run_task_try sample_low handlers_ok (str ''Please SORT CONTACTS by name'') =
        Inr [(''status'', Str ''success''), (''task'', Str ''A4''),
             (''result'', Payload ''done'')]"
proof -
  have h: "classify_task sample_low (str ''Please SORT CONTACTS by name'') = Inr ''A4''"
    by code_simp
  from dispatch_lookup_succeeds [OF h, of handlers_ok] h show ?thesis
    by (auto simp: handlers_ok_def)
qed

text \<open>
  Claim C3. Each of the eighteen rules gives its own category: a text whose lower-cased
  form satisfies the predicate of rule \<open>i\<close> and of no rule before it classifies to the
  category of rule \<open>i\<close>. The result depends on the lower-cased text only, so matching
  is case-insensitive: two texts with the same lower-cased form, and in particular two
  texts of ASCII that differ in the case of their letters only, classify alike. The
  texts made of nothing but the trigger words of one rule (one text for each alternative
  of an \<open>or\<close>) classify to that rule's category; \<open>count\<close> alone satisfies no rule,
  \<open>wednesday\<close> alone and \<open>count\<close> with \<open>dates.txt\<close> give \<open>A3\<close>.
\<close>

theorem each_rule_classifies:
  "(\<forall>i < length spec_rules.
      fst (spec_rules ! i) (lower low task)
        \<and> (\<forall>j < i. \<not> fst (spec_rules ! j) (lower low task))
        \<longrightarrow> classify_task low task = Inr (snd (spec_rules ! i)))
   \<and> (\<forall>task'. lower low task' = lower low task
        \<longrightarrow> classify_task low task' = classify_task low task)
   \<and> (\<forall>task'. (\<forall>c \<in> set task. c < 128) \<and> (\<forall>c \<in> set task'. c < 128)
          \<and> map ascii_lower task' = map ascii_lower task
        \<longrightarrow> classify_task low task' = classify_task low task)
   \<and> map (classify_task low)
        [str ''datagen.py'', str ''install uv'', str ''format prettier'', str ''wednesday'',
         str ''count dates.txt'', str ''sort contacts'', str ''recent .log'',
         str ''markdown index'', str ''email.txt sender'', str ''credit card'',
         str ''comments similar'', str ''ticket-sales.db'', str ''gold'', str ''fetch data'',
         str ''api'', str ''clone git'', str ''sql query'', str ''scrape'', str ''website'',
         str ''resize image'', str ''compress image'', str ''transcribe mp3'',
         str ''convert markdown html'', str ''filter csv'']
       = map Inr
        [''A1'', ''A1'', ''A2'', ''A3'',
         ''A3'', ''A4'', ''A5'',
         ''A6'', ''A7'', ''A8'',
         ''A9'', ''A10'', ''A10'', ''B3'',
         ''B3'', ''B4'', ''B5'', ''B6'', ''B6'',
         ''B7'', ''B7'', ''B8'',
         ''B9'', ''B10'']
   \<and> classify_task low (str ''count'') = Inl (HTTPException 400 ''Task not recognized'')
   \<and> classify_task low (str ''WEDNESDAY'') = Inr ''A3''
   \<and> classify_task low (str ''Count the Sundays in DATES.TXT'') = Inr ''A3''"
proof (intro conjI)
  show "\<forall>i < length spec_rules.
      fst (spec_rules ! i) (lower low task)
        \<and> (\<forall>j < i. \<not> fst (spec_rules ! j) (lower low task))
        \<longrightarrow> classify_task low task = Inr (snd (spec_rules ! i))"
    using classify_task_nth by blast
  show "\<forall>task'. lower low task' = lower low task
        \<longrightarrow> classify_task low task' = classify_task low task"
    by (simp add: classify_task_def)
  show "\<forall>task'. (\<forall>c \<in> set task. c < 128) \<and> (\<forall>c \<in> set task'. c < 128)
          \<and> map ascii_lower task' = map ascii_lower task
        \<longrightarrow> classify_task low task' = classify_task low task"
    by (simp add: classify_task_def lower_ascii)
  show "map (classify_task low)
        [str ''datagen.py'', str ''install uv'', str ''format prettier'', str ''wednesday'',
         str ''count dates.txt'', str ''sort contacts'', str ''recent .log'',
         str ''markdown index'', str ''email.txt sender'', str ''credit card'',
         str ''comments similar'', str ''ticket-sales.db'', str ''gold'', str ''fetch data'',
         str ''api'', str ''clone git'', str ''sql query'', str ''scrape'', str ''website'',
         str ''resize image'', str ''compress image'', str ''transcribe mp3'',
         str ''convert markdown html'', str ''filter csv'']
       = map Inr
        [''A1'', ''A1'', ''A2'', ''A3'',
         ''A3'', ''A4'', ''A5'',
         ''A6'', ''A7'', ''A8'',
         ''A9'', ''A10'', ''A10'', ''B3'',
         ''B3'', ''B4'', ''B5'', ''B6'', ''B6'',
         ''B7'', ''B7'', ''B8'',
         ''B9'', ''B10'']"
    by code_simp
  show "classify_task low (str ''count'') = Inl (HTTPException 400 ''Task not recognized'')"
    by code_simp
  show "classify_task low (str ''WEDNESDAY'') = Inr ''A3''"
    by code_simp
  show "classify_task low (str ''Count the Sundays in DATES.TXT'') = Inr ''A3''"
    by code_simp
qed

theorem each_rule_classifies_witness:
  "(5::nat) < length spec_rules
   \<and> fst (spec_rules ! 5) (lower sample_low (str ''mar'' @ [0x212A] @ str ''down INDEX''))
   \<and> \<not> fst (spec_rules ! 0) (lower sample_low (str ''mar'' @ [0x212A] @ str ''down INDEX''))
   \<and> \<not> fst (spec_rules ! 1) (lower sample_low (str ''mar'' @ [0x212A] @ str ''down INDEX''))
   \<and> \<not> fst (spec_rules ! 2) (lower sample_low (str ''mar'' @ [0x212A] @ str ''down INDEX''))
   \<and> \<not> fst (spec_rules ! 3) (lower sample_low (str ''mar'' @ [0x212A] @ str ''down INDEX''))
   \<and> \<not> fst (spec_rules ! 4) (lower sample_low (str ''mar'' @ [0x212A] @ str ''down INDEX''))
   \<and> snd (spec_rules ! 5) = ''A6''
   \<and> classify_task sample_low (str ''mar'' @ [0x212A] @ str ''down INDEX'') = Inr ''A6''"
proof -
  define t where "t = str ''mar'' @ [0x212A] @ str ''down INDEX''"
  have l: "(5::nat) < length spec_rules" by (simp add: spec_rules_def)
  have a: "fst (spec_rules ! 5) (lower sample_low t)" unfolding t_def by code_simp
  have b0: "\<not> fst (spec_rules ! 0) (lower sample_low t)" unfolding t_def by code_simp
  have b1: "\<not> fst (spec_rules ! 1) (lower sample_low t)" unfolding t_def by code_simp
  have b2: "\<not> fst (spec_rules ! 2) (lower sample_low t)" unfolding t_def by code_simp
  have b3: "\<not> fst (spec_rules ! 3) (lower sample_low t)" unfolding t_def by code_simp
  have b4: "\<not> fst (spec_rules ! 4) (lower sample_low t)" unfolding t_def by code_simp
  have c: "snd (spec_rules ! 5) = ''A6''" by (simp add: spec_rules_def)
  have b: "\<forall>j < (5::nat). \<not> fst (spec_rules ! j) (lower sample_low t)"
  proof (intro allI impI)
    fix j :: nat
    assume "j < 5"
    then have "j = 0 \<or> j = 1 \<or> j = 2 \<or> j = 3 \<or> j = 4" by arith
    with b0 b1 b2 b3 b4 show "\<not> fst (spec_rules ! j) (lower sample_low t)" by auto
  qed
  from each_rule_classifies [of sample_low t] l a b
  have "classify_task sample_low t = Inr (snd (spec_rules ! 5))"
    by blast
  with l a b0 b1 b2 b3 b4 c show ?thesis unfolding t_def by simp
qed

text \<open>
  Claim C4, as stated, fails: a text that contains both \<open>sql query\<close> and \<open>api\<close> need not
  classify to \<open>B3\<close>, because one of the ten rules before the \<open>api\<close> rule may hold as
  well. Here the \<open>wednesday\<close> rule wins.
\<close>

theorem sql_query_api_counterexample:
  "contains (str ''api sql query on wednesday'') (str ''sql query'')
   \<and> contains (str ''api sql query on wednesday'') (str ''api'')
   \<and> classify_task sample_low (str ''api sql query on wednesday'') = Inr ''A3''
   \<and> classify_task sample_low (str ''api sql query on wednesday'') \<noteq> Inr ''B3''"
  by code_simp

text \<open>
  Claim C4, amended. A text whose lower-cased form contains both \<open>sql query\<close> and \<open>api\<close>
  never classifies to \<open>B5\<close>, the category of the \<open>sql query\<close> rule; it classifies to
  \<open>B3\<close>, the category of the earlier \<open>api\<close> rule, whenever none of the ten rules before
  that one holds; and when one of those ten rules holds, the first of them that holds
  gives the category.
\<close>

theorem api_rule_before_sql_rule:
  assumes "contains (lower low task) (str ''sql query'')"
    and "contains (lower low task) (str ''api'')"
  shows "classify_task low task \<noteq> Inr ''B5''
       \<and> (\<not> (\<exists>r \<in> set (take 10 spec_rules). fst r (lower low task))
            \<longrightarrow> classify_task low task = Inr ''B3'')
       \<and> (\<forall>i < 10. fst (spec_rules ! i) (lower low task)
              \<and> (\<forall>j < i. \<not> fst (spec_rules ! j) (lower low task))
            \<longrightarrow> classify_task low task = Inr (snd (spec_rules ! i)))"
proof (intro conjI impI allI)
  show "classify_task low task \<noteq> Inr ''B5''"
    using assms(2) by (simp add: classify_task_def Let_def)
next
  assume "\<not> (\<exists>r \<in> set (take 10 spec_rules). fst r (lower low task))"
  then have "first_match spec_rules (lower low task)
              = first_match (drop 10 spec_rules) (lower low task)"
    by (rule first_match_drop)
  also have "\<dots> = Some ''B3''"
    using assms(2) by (simp add: spec_rules_def)
  finally show "classify_task low task = Inr ''B3''"
    by (simp add: classify_task_spec spec_classify_def)
next
  fix i :: nat
  assume i: "i < 10"
    and h: "fst (spec_rules ! i) (lower low task)
              \<and> (\<forall>j < i. \<not> fst (spec_rules ! j) (lower low task))"
  have "length spec_rules = 18" by (simp add: spec_rules_def)
  with i have "i < length spec_rules" by simp
  with h show "classify_task low task = Inr (snd (spec_rules ! i))"
    using classify_task_nth by blast
qed

theorem api_rule_before_sql_rule_witness:
  "contains (lower sample_low (str ''SQL query ap'' @ [0x130])) (str ''sql query'')
   \<and> contains (lower sample_low (str ''SQL query ap'' @ [0x130])) (str ''api'')
   \<and> \<not> (\<exists>r \<in> set (take 10 spec_rules).
           fst r (lower sample_low (str ''SQL query ap'' @ [0x130])))
   \<and> classify_task sample_low (str ''SQL query ap'' @ [0x130]) = Inr ''B3''
   \<and> classify_task sample_low (str ''SQL query ap'' @ [0x130]) \<noteq> Inr ''B5''
   \<and> contains (lower sample_low (str ''api sql query on wednesday'')) (str ''sql query'')
   \<and> contains (lower sample_low (str ''api sql query on wednesday'')) (str ''api'')
   \<and> fst (spec_rules ! 2) (lower sample_low (str ''api sql query on wednesday''))
   \<and> \<not> fst (spec_rules ! 0) (lower sample_low (str ''api sql query on wednesday''))
   \<and> \<not> fst (spec_rules ! 1) (lower sample_low (str ''api sql query on wednesday''))
   \<and> snd (spec_rules ! 2) = ''A3''
   \<and> classify_task sample_low (str ''api sql query on wednesday'') = Inr ''A3''"
proof -
  define t where "t = str ''SQL query ap'' @ [0x130]"
  define u where "u = str ''api sql query on wednesday''"
  have a: "contains (lower sample_low t) (str ''sql query'')" unfolding t_def by code_simp
  have b: "contains (lower sample_low t) (str ''api'')" unfolding t_def by code_simp
  have c: "\<not> (\<exists>r \<in> set (take 10 spec_rules). fst r (lower sample_low t))"
    unfolding t_def by code_simp
  have a': "contains (lower sample_low u) (str ''sql query'')" unfolding u_def by code_simp
  have b': "contains (lower sample_low u) (str ''api'')" unfolding u_def by code_simp
  have r2: "fst (spec_rules ! 2) (lower sample_low u)" unfolding u_def by code_simp
  have r0: "\<not> fst (spec_rules ! 0) (lower sample_low u)" unfolding u_def by code_simp
  have r1: "\<not> fst (spec_rules ! 1) (lower sample_low u)" unfolding u_def by code_simp
  have k: "snd (spec_rules ! 2) = ''A3''" by (simp add: spec_rules_def)
  have before: "\<forall>j < (2::nat). \<not> fst (spec_rules ! j) (lower sample_low u)"
  proof (intro allI impI)
    fix j :: nat
    assume "j < 2"
    then have "j = 0 \<or> j = 1" by arith
    with r0 r1 show "\<not> fst (spec_rules ! j) (lower sample_low u)" by auto
  qed
  have two: "(2::nat) < 10" by simp
  from api_rule_before_sql_rule [OF a b] c
  have t3: "classify_task sample_low t = Inr ''B3''"
    and t5: "classify_task sample_low t \<noteq> Inr ''B5''"
    by blast+
  from api_rule_before_sql_rule [OF a' b'] two r2 before
  have "classify_task sample_low u = Inr (snd (spec_rules ! 2))"
    by blast
  with k have u3: "classify_task sample_low u = Inr ''A3''" by simp
  from a b c t3 t5 a' b' r2 r0 r1 k u3 show ?thesis
    unfolding t_def u_def by blast
qed

section \<open>The outcomes of \<open>/run\<close>\<close>

text \<open>
  Claim C7, as stated, fails: a handler that raises an \<open>HTTPException\<close> does not give a
  500. The first \<open>except\<close> clause raises it again, and the client sees its own status
  code.
\<close>

theorem handler_failure_counterexample:
  "classify_task sample_low (str ''sort contacts'') = Inr ''A4''
   \<and> task_mapping ''A4'' = Some task_A4_sort_contacts
   \<and> handlers_404 task_A4_sort_contacts = Raises (HTTPException 404 ''no such record'')
   \<and> run_task sample_low handlers_404 (str ''sort contacts'')
        = Inl (HTTPException 404 ''no such record'')
   \<and> http_response (run_task sample_low handlers_404 (str ''sort contacts''))
        = Some (404, Detail ''no such record'')
   \<and> http_response (run_task sample_low handlers_404 (str ''sort contacts''))
        \<noteq> Some (500, Detail ''no such record'')"
  by code_simp

text \<open>
  Claim C7, amended. For a text that classifies to a category whose handler is \<open>f\<close>: if
  \<open>f\<close> returns a payload, \<open>/run\<close> answers 200 with the dictionary of \<open>status\<close>, \<open>task\<close> and
  \<open>result\<close>, the result being the payload; if \<open>f\<close> raises an \<open>Exception\<close> that is not an
  \<open>HTTPException\<close>, \<open>/run\<close> answers 500 with \<open>str(e)\<close> as the detail.
\<close>

theorem run_task_outcomes:
  assumes "classify_task low task = Inr c" and "task_mapping c = Some f"
  shows "(call f = Returns result \<longrightarrow>
            run_task low call task =
              Inr [(''status'', Str ''success''), (''task'', Str c), (''result'', Payload result)]
            \<and> http_response (run_task low call task) =
                Some (200, Content [(''status'', Str ''success''), (''task'', Str c),
                                    (''result'', Payload result)]))
       \<and> (call f = Raises (Exception m) \<longrightarrow>
            run_task low call task = Inl (HTTPException 500 m)
            \<and> http_response (run_task low call task) = Some (500, Detail m))"
  using assms by (simp add: run_task_def run_task_try_def)

theorem run_task_outcomes_witness:
  "classify_task sample_low (str ''sort contacts'') = Inr ''A4''
   \<and> task_mapping ''A4'' = Some task_A4_sort_contacts
   \<and> handlers_ok task_A4_sort_contacts = Returns ''done''
   \<and> handlers_boom task_A4_sort_contacts = Raises (Exception ''boom'')
   \<and> http_response (run_task sample_low handlers_ok (str ''sort contacts'')) =
        Some (200, Content [(''status'', Str ''success''), (''task'', Str ''A4''),
                            (''result'', Payload ''done'')])
   \<and> http_response (run_task sample_low handlers_boom (str ''sort contacts''))
        = Some (500, Detail ''boom'')"
proof -
  have a: "classify_task sample_low (str ''sort contacts'') = Inr ''A4''" by code_simp
  have b: "task_mapping ''A4'' = Some task_A4_sort_contacts" by code_simp
  have c: "handlers_ok task_A4_sort_contacts = Returns ''done''" by (simp add: handlers_ok_def)
  have d: "handlers_boom task_A4_sort_contacts = Raises (Exception ''boom'')"
    by (simp add: handlers_boom_def)
  from run_task_outcomes [OF a b, of handlers_ok "''done''" "''boom''"]
       run_task_outcomes [OF a b, of handlers_boom "''done''" "''boom''"] a b c d
  show ?thesis by simp
qed

text \<open>
  Claim C8. When the handler raises an \<open>HTTPException\<close>, \<open>run_task\<close> raises the same
  exception: its status code and its detail reach the client. An \<open>Exception\<close> of another
  class becomes a 500 with \<open>str(e)\<close>, and an exception outside \<open>Exception\<close> is not wrapped.
\<close>

theorem handler_http_exception_reraised:
  assumes "classify_task low task = Inr c" and "task_mapping c = Some f"
    and "call f = Raises e"
  shows "(\<forall>s d. e = HTTPException s d \<longrightarrow>
            run_task low call task = Inl (HTTPException s d)
            \<and> http_response (run_task low call task) = Some (s, Detail d))
       \<and> (\<forall>m. e = Exception m \<longrightarrow> run_task low call task = Inl (HTTPException 500 m))
       \<and> (\<forall>m. e = BaseException m \<longrightarrow> run_task low call task = Inl (BaseException m))"
  using assms by (cases e) (simp_all add: run_task_def run_task_try_def)

theorem handler_http_exception_reraised_witness:
  "classify_task sample_low (str ''sort contacts'') = Inr ''A4''
   \<and> task_mapping ''A4'' = Some task_A4_sort_contacts
   \<and> handlers_404 task_A4_sort_contacts = Raises (HTTPException 404 ''no such record'')
   \<and> run_task sample_low handlers_404 (str ''sort contacts'')
        = Inl (HTTPException 404 ''no such record'')
   \<and> http_response (run_task sample_low handlers_404 (str ''sort contacts''))
        = Some (404, Detail ''no such record'')"
proof -
  have a: "classify_task sample_low (str ''sort contacts'') = Inr ''A4''" by code_simp
  have b: "task_mapping ''A4'' = Some task_A4_sort_contacts" by code_simp
  have c: "handlers_404 task_A4_sort_contacts = Raises (HTTPException 404 ''no such record'')"
    by (simp add: handlers_404_def)
  from handler_http_exception_reraised [where call = handlers_404, OF a b c] a b c
  show ?thesis by blast
qed

section \<open>The sandbox test of \<open>/read\<close>\<close>

lemma underneath_startswith: "underneath root p \<Longrightarrow> startswith p root"
  by (auto simp: underneath_def startswith_prefix prefix_def)

lemma abspath_data: "abspath cwd ''/data'' = ''/data''"
proof -
  have "abspath cwd ''/data'' = normpath ''/data''" by (simp add: abspath_def)
  also have "\<dots> = ''/data''" by code_simp
  finally show ?thesis .
qed

lemma str_split_not_Nil: "str_split sep s \<noteq> []"
  by (induction s) (auto split: list.splits)

lemma str_split_sep: "str_split sep (a @ sep # b) = str_split sep a @ str_split sep b"
proof (induction a)
  case Nil
  then show ?case by simp
next
  case (Cons c a)
  obtain w ws where w: "str_split sep a = w # ws"
    using str_split_not_Nil [of sep a] by (cases "str_split sep a") auto
  with Cons show ?case by simp
qed

lemma normpath_loop_append:
  "normpath_loop i acc (xs @ ys) = normpath_loop i (normpath_loop i acc xs) ys"
  by (induction xs arbitrary: acc) simp_all

lemma str_join_snoc: "\<exists>p. str_join sep (xs @ [d]) = p @ d"
proof (induction xs)
  case Nil
  then show ?case by simp
next
  case (Cons x xs)
  then obtain p where p: "str_join sep (xs @ [d]) = p @ d" by blast
  show ?case
  proof (cases xs)
    case Nil
    then show ?thesis by simp
  next
    case (Cons y ys)
    with p show ?thesis by simp
  qed
qed

lemma normpath_ends_data: "\<exists>q. normpath (a @ ''/./data'') = q @ ''data''"
proof -
  define P where "P = a @ ''/./data''"
  define i where "i = (if startswith P ''/''
              then (if startswith P ''//'' \<and> \<not> startswith P ''///'' then 2 else 1)
              else (0::nat))"
  have ne: "P \<noteq> []" by (simp add: P_def)
  have "str_split CHR ''/'' ''./data'' = [''.'', ''data'']" by code_simp
  then have split: "str_split CHR ''/'' P = str_split CHR ''/'' a @ [''.'', ''data'']"
    using str_split_sep [of "CHR ''/''" a "''./data''"] by (simp add: P_def)
  have loop: "normpath_loop i [] (str_split CHR ''/'' P)
               = normpath_loop i [] (str_split CHR ''/'' a) @ [''data'']"
    unfolding split normpath_loop_append by simp
  obtain p where p: "str_join ''/'' (normpath_loop i [] (str_split CHR ''/'' P)) = p @ ''data''"
    unfolding loop using str_join_snoc by blast
  have "normpath P =
          (let r = (if i \<noteq> 0
                    then replicate i CHR ''/'' @ str_join ''/'' (normpath_loop i [] (str_split CHR ''/'' P))
                    else str_join ''/'' (normpath_loop i [] (str_split CHR ''/'' P)))
           in if r = [] then ''.'' else r)"
    using ne unfolding normpath_def i_def Let_def by (simp only: if_False)
  also have "\<dots> = (if i \<noteq> 0 then replicate i CHR ''/'' @ p @ ''data'' else p @ ''data'')"
    unfolding p Let_def by simp
  finally have "normpath P = (if i \<noteq> 0 then replicate i CHR ''/'' @ p else p) @ ''data''"
    by simp
  then show ?thesis unfolding P_def by blast
qed

lemma abspath_rel_data_ends: "\<exists>q. abspath cwd ''./data'' = q @ ''data''"
proof (cases "cwd = []")
  case True
  have "normpath ''./data'' = ''data''" by code_simp
  with True show ?thesis by (simp add: abspath_def path_join_def)
next
  case False
  show ?thesis
  proof (cases "last cwd = CHR ''/''")
    case True
    with False obtain c where c: "cwd = c @ ''/''"
      by (metis append_butlast_last_id)
    have "path_join (c @ ''/'') ''./data'' = c @ ''/./data''"
      by (simp add: path_join_def)
    then show ?thesis
      using normpath_ends_data [of c] unfolding c by (simp add: abspath_def)
  next
    case l: False
    with False have "path_join cwd ''./data'' = cwd @ ''/./data''"
      by (simp add: path_join_def)
    then show ?thesis
      using normpath_ends_data [of cwd] by (simp add: abspath_def)
  qed
qed

lemma startswith_contains: "startswith s (q @ d) \<Longrightarrow> contains s d"
  unfolding startswith_prefix contains_sublist
  by (auto simp: prefix_def sublist_def)

lemma etc_passwd_rejected: "\<not> path_is_safe env ''/data/../../etc/passwd''"
proof -
  have a: "abspath (os_getcwd env) ''/data/../../etc/passwd'' = ''/etc/passwd''"
  proof -
    have "abspath (os_getcwd env) ''/data/../../etc/passwd'' = normpath ''/data/../../etc/passwd''"
      by (simp add: abspath_def)
    also have "\<dots> = ''/etc/passwd''" by code_simp
    finally show ?thesis .
  qed
  have n: "\<not> contains ''/etc/passwd'' ''data''" by code_simp
  have "\<not> startswith ''/etc/passwd'' ''/data''" by code_simp
  moreover have "\<not> startswith ''/etc/passwd'' (abspath (os_getcwd env) ''./data'')"
  proof
    assume s: "startswith ''/etc/passwd'' (abspath (os_getcwd env) ''./data'')"
    obtain q where "abspath (os_getcwd env) ''./data'' = q @ ''data''"
      using abspath_rel_data_ends by blast
    with s have "contains ''/etc/passwd'' ''data''"
      by (simp only: startswith_contains)
    with n show False by simp
  qed
  ultimately show ?thesis
    by (simp add: path_is_safe_def a abspath_data)
qed

text \<open>
  What the test does reject: every path whose absolute normalized form starts neither
  with the characters of \<open>/data\<close> nor with those of the absolute form of \<open>./data\<close>, before
  the file system is looked at; \<open>/data/../../etc/passwd\<close> is among them in every working
  directory. It never rejects a path underneath one of the two directories.
\<close>

lemma sandbox_rejects_other_prefixes:
  "(\<not> startswith (abspath (os_getcwd env) path) ''/data''
      \<and> \<not> startswith (abspath (os_getcwd env) path) (abspath (os_getcwd env) ''./data'')
      \<longrightarrow> read_file env path
            = (Inl (HTTPException 400 ''Access to files outside /data is forbidden''), [])
          \<and> http_response (fst (read_file env path))
            = Some (400, Detail ''Access to files outside /data is forbidden''))
   \<and> (underneath ''/data'' (abspath (os_getcwd env) path)
        \<or> underneath (abspath (os_getcwd env) ''./data'') (abspath (os_getcwd env) path)
      \<longrightarrow> fst (read_file env path)
            \<noteq> Inl (HTTPException 400 ''Access to files outside /data is forbidden''))
   \<and> read_file env ''/data/../../etc/passwd''
        = (Inl (HTTPException 400 ''Access to files outside /data is forbidden''), [])"
proof (intro conjI impI)
  assume "\<not> startswith (abspath (os_getcwd env) path) ''/data''
      \<and> \<not> startswith (abspath (os_getcwd env) path) (abspath (os_getcwd env) ''./data'')"
  then have "\<not> path_is_safe env path"
    by (simp add: path_is_safe_def abspath_data)
  then show "read_file env path
            = (Inl (HTTPException 400 ''Access to files outside /data is forbidden''), [])"
    and "http_response (fst (read_file env path))
            = Some (400, Detail ''Access to files outside /data is forbidden'')"
    by (simp_all add: read_file_def)
next
  assume "underneath ''/data'' (abspath (os_getcwd env) path)
        \<or> underneath (abspath (os_getcwd env) ''./data'') (abspath (os_getcwd env) path)"
  then have "path_is_safe env path"
    using underneath_startswith by (auto simp: path_is_safe_def abspath_data)
  then show "fst (read_file env path)
            \<noteq> Inl (HTTPException 400 ''Access to files outside /data is forbidden'')"
    by (simp add: read_file_def split: sum.splits)
next
  show "read_file env ''/data/../../etc/passwd''
        = (Inl (HTTPException 400 ''Access to files outside /data is forbidden''), [])"
    using etc_passwd_rejected [of env] by (simp add: read_file_def)
qed

text \<open>
  Claim C1 says that \<open>read_file\<close> raises the 400 error exactly when the absolute
  normalized path does not lie underneath the sandbox root, and that a path whose \<open>..\<close>
  segments take it out of the root is rejected. The code does not do this. Its test is
  \<open>startswith\<close> on the characters of the root, with no separator after them, so the
  directory \<open>/database\<close> beside \<open>/data\<close> passes: on a machine that has the file
  \<open>/database/x\<close>, the requests \<open>/data/../database/x\<close> and \<open>/database/x\<close> normalize to
  \<open>/database/x\<close>, which is underneath neither \<open>/data\<close> nor \<open>/app/data\<close>, and the file is
  served with a 200.
\<close>

theorem sibling_directory_served:
  "abspath (os_getcwd sibling_env) ''/data/../database/x'' = ''/database/x''
   \<and> abspath (os_getcwd sibling_env) ''/database/x'' = ''/database/x''
   \<and> abspath (os_getcwd sibling_env) ''./data'' = ''/app/data''
   \<and> underneath ''/data'' ''/database/x'' = False
   \<and> underneath ''/app/data'' ''/database/x'' = False
   \<and> startswith ''/database/x'' ''/data''
   \<and> read_file sibling_env ''/data/../database/x''
        = (Inr ''secret'', [Exists ''/data/../database/x'', Open ''/data/../database/x''])
   \<and> read_file sibling_env ''/database/x''
        = (Inr ''secret'', [Exists ''/database/x'', Open ''/database/x''])
   \<and> http_response (fst (read_file sibling_env ''/database/x'')) = Some (200, Content ''secret'')"
  by code_simp

text \<open>
  Claim C2. The sandbox test is two string-prefix tests on the absolute path. In every
  working directory \<open>/database/x\<close> and \<open>/data/../database/x\<close> pass it, although their
  normalized form \<open>/database/x\<close> is not underneath \<open>/data\<close>, and they are not rejected
  with 400. A path that resolves underneath the absolute form of \<open>./data\<close>, the working
  directory's \<open>data\<close>, is accepted as well.
\<close>

theorem prefix_test_accepts_outside:
  "path_is_safe env ''/database/x''
   \<and> \<not> underneath ''/data'' (abspath (os_getcwd env) ''/database/x'')
   \<and> fst (read_file env ''/database/x'')
        \<noteq> Inl (HTTPException 400 ''Access to files outside /data is forbidden'')
   \<and> path_is_safe env ''/data/../database/x''
   \<and> \<not> underneath ''/data'' (abspath (os_getcwd env) ''/data/../database/x'')
   \<and> fst (read_file env ''/data/../database/x'')
        \<noteq> Inl (HTTPException 400 ''Access to files outside /data is forbidden'')
   \<and> path_is_safe env path =
        (startswith (abspath (os_getcwd env) path) ''/data''
         \<or> startswith (abspath (os_getcwd env) path) (abspath (os_getcwd env) ''./data''))
   \<and> (underneath (abspath (os_getcwd env) ''./data'') (abspath (os_getcwd env) path)
        \<longrightarrow> path_is_safe env path
          \<and> fst (read_file env path)
               \<noteq> Inl (HTTPException 400 ''Access to files outside /data is forbidden''))"
proof -
  have n1: "abspath (os_getcwd env) ''/database/x'' = ''/database/x''"
  proof -
    have "abspath (os_getcwd env) ''/database/x'' = normpath ''/database/x''"
      by (simp add: abspath_def)
    also have "\<dots> = ''/database/x''" by code_simp
    finally show ?thesis .
  qed
  have n2: "abspath (os_getcwd env) ''/data/../database/x'' = ''/database/x''"
  proof -
    have "abspath (os_getcwd env) ''/data/../database/x'' = normpath ''/data/../database/x''"
      by (simp add: abspath_def)
    also have "\<dots> = ''/database/x''" by code_simp
    finally show ?thesis .
  qed
  have s: "startswith ''/database/x'' ''/data''" by code_simp
  have u: "\<not> underneath ''/data'' ''/database/x''" by code_simp
  have safe1: "path_is_safe env ''/database/x''"
    unfolding path_is_safe_def n1 abspath_data using s by simp
  have safe2: "path_is_safe env ''/data/../database/x''"
    unfolding path_is_safe_def n2 abspath_data using s by simp
  have not400: "path_is_safe env p \<Longrightarrow> fst (read_file env p)
        \<noteq> Inl (HTTPException 400 ''Access to files outside /data is forbidden'')" for p
    by (simp add: read_file_def split: sum.splits)
  have safe3: "path_is_safe env path"
    if "underneath (abspath (os_getcwd env) ''./data'') (abspath (os_getcwd env) path)"
    using that underneath_startswith by (auto simp: path_is_safe_def)
  have def: "path_is_safe env path =
        (startswith (abspath (os_getcwd env) path) ''/data''
         \<or> startswith (abspath (os_getcwd env) path) (abspath (os_getcwd env) ''./data''))"
    by (simp add: path_is_safe_def abspath_data)
  show ?thesis
    unfolding n1 n2 using safe1 safe2 safe3 not400 u def
    by (metis n1 n2)
qed

theorem prefix_test_accepts_outside_witness:
  "abspath (os_getcwd demo_env) ''data/notes.txt'' = ''/app/data/notes.txt''
   \<and> underneath (abspath (os_getcwd demo_env) ''./data'')
        (abspath (os_getcwd demo_env) ''data/notes.txt'')
   \<and> \<not> underneath ''/data'' (abspath (os_getcwd demo_env) ''data/notes.txt'')
   \<and> path_is_safe demo_env ''data/notes.txt''
   \<and> fst (read_file demo_env ''data/notes.txt'')
        \<noteq> Inl (HTTPException 400 ''Access to files outside /data is forbidden'')"
proof -
  have a: "abspath (os_getcwd demo_env) ''data/notes.txt'' = ''/app/data/notes.txt''"
    by code_simp
  have b: "underneath (abspath (os_getcwd demo_env) ''./data'')
        (abspath (os_getcwd demo_env) ''data/notes.txt'')"
    by code_simp
  have c: "\<not> underneath ''/data'' (abspath (os_getcwd demo_env) ''data/notes.txt'')"
    by code_simp
  from prefix_test_accepts_outside [of demo_env "''data/notes.txt''"] a b c
  show ?thesis by blast
qed

section \<open>Missing files and file contents\<close>

text \<open>
  Claim C9. A path that passes the sandbox test and does not exist gives the 404 error
  \<open>File not found\<close>, not a 500. The only call on the file system is then the existence
  test: a path that fails the sandbox test is rejected before it, and the file is opened
  only after both the sandbox test and the existence test have passed.
\<close>

theorem missing_file_404:
  "(path_is_safe env path \<and> \<not> os_path_exists env path
      \<longrightarrow> read_file env path = (Inl (HTTPException 404 ''File not found''), [Exists path])
          \<and> http_response (fst (read_file env path)) = Some (404, Detail ''File not found''))
   \<and> (\<not> path_is_safe env path \<longrightarrow> snd (read_file env path) = [])
   \<and> (Open path \<in> set (snd (read_file env path))
        \<longrightarrow> path_is_safe env path \<and> os_path_exists env path
          \<and> snd (read_file env path) = [Exists path, Open path])"
  by (simp add: read_file_def split: sum.splits)

theorem missing_file_404_witness:
  "path_is_safe demo_env ''/data/missing.txt''
   \<and> \<not> os_path_exists demo_env ''/data/missing.txt''
   \<and> read_file demo_env ''/data/missing.txt''
        = (Inl (HTTPException 404 ''File not found''), [Exists ''/data/missing.txt''])
   \<and> http_response (fst (read_file demo_env ''/data/missing.txt''))
        = Some (404, Detail ''File not found'')
   \<and> \<not> path_is_safe demo_env ''/etc/missing.txt''
   \<and> snd (read_file demo_env ''/etc/missing.txt'') = []
   \<and> Open ''/data/plain.txt'' \<in> set (snd (read_file demo_env ''/data/plain.txt''))
   \<and> snd (read_file demo_env ''/data/plain.txt'')
        = [Exists ''/data/plain.txt'', Open ''/data/plain.txt'']"
proof -
  have a: "path_is_safe demo_env ''/data/missing.txt''" by code_simp
  have b: "\<not> os_path_exists demo_env ''/data/missing.txt''" by code_simp
  have c: "\<not> path_is_safe demo_env ''/etc/missing.txt''" by code_simp
  have d: "Open ''/data/plain.txt'' \<in> set (snd (read_file demo_env ''/data/plain.txt''))"
    by code_simp
  from missing_file_404 [of demo_env "''/data/missing.txt''"]
       missing_file_404 [of demo_env "''/etc/missing.txt''"]
       missing_file_404 [of demo_env "''/data/plain.txt''"] a b c d
  show ?thesis by blast
qed

lemma universal_newlines_no_cr: "CHR 0x0D \<notin> set s \<Longrightarrow> universal_newlines s = s"
  by (induction s rule: universal_newlines.induct) auto

text \<open>
  Claim C10, as stated, fails: the file is opened in text mode. A file inside the
  sandbox that holds \<open>a\r\nb\<close> is returned as \<open>a\nb\<close>, and a file whose bytes are not
  UTF-8 is not returned at all but gives a 500.
\<close>

theorem read_crlf_counterexample:
  "path_is_safe demo_env ''/data/crlf.txt''
   \<and> os_path_exists demo_env ''/data/crlf.txt''
   \<and> open_bytes demo_env ''/data/crlf.txt'' = Inr [CHR ''a'', CHR 0x0D, CHR 0x0A, CHR ''b'']
   \<and> fst (read_file demo_env ''/data/crlf.txt'') = Inr [CHR ''a'', CHR 0x0A, CHR ''b'']
   \<and> fst (read_file demo_env ''/data/crlf.txt'')
        \<noteq> Inr [CHR ''a'', CHR 0x0D, CHR 0x0A, CHR ''b'']
   \<and> path_is_safe demo_env ''/data/bad.bin''
   \<and> os_path_exists demo_env ''/data/bad.bin''
   \<and> open_bytes demo_env ''/data/bad.bin'' = Inr [CHR 0xFF]
   \<and> fst (read_file demo_env ''/data/bad.bin'') = Inl (HTTPException 500 ''invalid start byte'')"
  by code_simp

text \<open>
  Claim C10, amended. For a path that passes the sandbox test, exists and can be opened,
  \<open>read_file\<close> returns the text of the whole file: when the bytes are well-formed UTF-8,
  all of them, with every \<open>\r\n\<close> and every other \<open>\r\<close> replaced by \<open>\n\<close>, so the result is
  the bytes on disk, unchanged, when no byte is a carriage return; when they are not
  well-formed UTF-8, a 500 with the message of the decoding error.
\<close>

theorem read_file_text:
  assumes "path_is_safe env path" and "os_path_exists env path"
    and "open_bytes env path = Inr bytes"
  shows "(utf8_valid bytes \<longrightarrow>
            read_file env path = (Inr (universal_newlines bytes), [Exists path, Open path])
            \<and> http_response (fst (read_file env path))
                = Some (200, Content (universal_newlines bytes)))
       \<and> (utf8_valid bytes \<and> CHR 0x0D \<notin> set bytes \<longrightarrow>
            fst (read_file env path) = Inr bytes)
       \<and> (\<not> utf8_valid bytes \<longrightarrow>
            fst (read_file env path)
              = Inl (HTTPException 500 (str_UnicodeDecodeError env bytes)))"
  using assms by (simp add: read_file_def read_text_def universal_newlines_no_cr)

theorem read_file_text_witness:
  "path_is_safe demo_env ''/data/plain.txt''
   \<and> os_path_exists demo_env ''/data/plain.txt''
   \<and> open_bytes demo_env ''/data/plain.txt'' = Inr ''hello''
   \<and> utf8_valid ''hello''
   \<and> CHR 0x0D \<notin> set ''hello''
   \<and> read_file demo_env ''/data/plain.txt''
        = (Inr ''hello'', [Exists ''/data/plain.txt'', Open ''/data/plain.txt''])
   \<and> http_response (fst (read_file demo_env ''/data/plain.txt'')) = Some (200, Content ''hello'')"
proof -
  have a: "path_is_safe demo_env ''/data/plain.txt''" by code_simp
  have b: "os_path_exists demo_env ''/data/plain.txt''" by code_simp
  have c: "open_bytes demo_env ''/data/plain.txt'' = Inr ''hello''" by code_simp
  have d: "utf8_valid ''hello''" by code_simp
  have e: "CHR 0x0D \<notin> set ''hello''" by code_simp
  have f: "universal_newlines ''hello'' = ''hello''" by code_simp
  from read_file_text [OF a b c] a b c d e f show ?thesis by simp
qed

end
